theory Spec2Isabelle
  imports Complex_Main
begin

section \<open>Residual blocks for sparse 3D convolutions (modules.py)\<close>

text \<open>
  The file \<^verbatim>\<open>torch_points3d/modules/TorchSparse/modules.py\<close> defines four classes:
  \<^verbatim>\<open>ResBlock\<close>, \<^verbatim>\<open>BottleneckBlock\<close>, \<^verbatim>\<open>ResNetDown\<close> and \<^verbatim>\<open>ResNetUp\<close>. Each constructor
  builds stacks of layers of the sparse-tensor library and each \<^verbatim>\<open>forward\<close> runs them.
  The library's layers are kept as descriptions of the constructor calls the source
  makes (which callable, with which arguments); what a layer computes on a tensor is a
  parameter \<open>ap\<close> of the forward functions, and tensors are any type with an addition.
\<close>

subsection \<open>Layers\<close>

text \<open>
  The callable that builds a convolution: \<^verbatim>\<open>TS.nn.Conv3d\<close>, the partial application
  \<^verbatim>\<open>partial(TS.nn.Conv3d, transpose=True)\<close> of \<^verbatim>\<open>ResNetUp\<close>, or any other callable a
  caller passes as \<^verbatim>\<open>convolution\<close> (kept by name).
\<close>

datatype convolution = Conv3d | Conv3d_transpose | Callable string

text \<open>
  A layer is the call that made it. \<open>Conv k i o ks st dl\<close> is the call of \<open>k\<close> with
  input channels \<open>i\<close>, output channels \<open>o\<close>, kernel size \<open>ks\<close>, and the keyword
  arguments \<^verbatim>\<open>stride\<close> and \<^verbatim>\<open>dilation\<close> where the source passes them (\<open>None\<close> where it
  leaves them to the callee's default).
\<close>

datatype layer =
    Conv convolution int int int "int option" "int option"
  | BatchNorm int
  | ReLU bool

datatype error = AttributeError | IndexError | ZeroDivisionError | TypeError

subsection \<open>The container Seq\<close>

text \<open>
  Modelled from the spec: the class \<^verbatim>\<open>Seq\<close> is imported from
  \<^verbatim>\<open>torch_points3d.core.common_modules\<close>, which is not among the source files. The spec
  calls it "a sequential stack of pre-existing layers": \<^verbatim>\<open>Seq()\<close> is the empty stack,
  \<^verbatim>\<open>append\<close> (here \<open>Seq_append\<close>) puts a module at the end and returns the stack,
  and calling the stack feeds the input through its modules from the first to the last.
\<close>

type_synonym 'm Seq = "'m list"

definition Seq :: "'m Seq" where
  "Seq = []"

definition Seq_append :: "'m Seq \<Rightarrow> 'm \<Rightarrow> 'm Seq" where
  "Seq_append s m = s @ [m]"

definition Seq_forward :: "('m \<Rightarrow> 't \<Rightarrow> 't) \<Rightarrow> 'm Seq \<Rightarrow> 't \<Rightarrow> 't" where
  "Seq_forward call s x = foldl (\<lambda>v m. call m v) x s"

text \<open>
  The truth value Python gives an attribute that is \<^verbatim>\<open>None\<close> or a stack: \<^verbatim>\<open>None\<close> is
  false, a stack with at least one module is true. (An empty stack is false when the
  class has a length, as a \<^verbatim>\<open>torch.nn.Sequential\<close> has; no stack tested in this file
  is empty.)
\<close>

fun truthy :: "'m Seq option \<Rightarrow> bool" where
  "truthy None = False"
| "truthy (Some s) = (s \<noteq> [])"

subsection \<open>ResBlock and BottleneckBlock\<close>

text \<open>
  Both classes have the attributes \<^verbatim>\<open>block\<close> and \<^verbatim>\<open>downsample\<close>; \<^verbatim>\<open>downsample\<close> is a
  stack or \<^verbatim>\<open>None\<close>.
\<close>

datatype res_module =
    ResBlock (block: "layer Seq") (downsample: "layer Seq option")
  | BottleneckBlock (block: "layer Seq") (downsample: "layer Seq option")

definition ResBlock_init :: "int \<Rightarrow> int \<Rightarrow> convolution \<Rightarrow> res_module" where
  "ResBlock_init input_nc output_nc convolution =
     ResBlock
       (Seq_append (Seq_append (Seq_append (Seq_append (Seq_append (Seq_append Seq
          (Conv convolution input_nc output_nc 3 (Some 1) None))
          (BatchNorm output_nc))
          (ReLU True))
          (Conv convolution output_nc output_nc 3 (Some 1) None))
          (BatchNorm output_nc))
          (ReLU True))
       (if input_nc \<noteq> output_nc
        then Some (Seq_append (Seq_append Seq
               (Conv Conv3d input_nc output_nc 1 (Some 1) None))
               (BatchNorm output_nc))
        else None)"

text \<open>Python's \<^verbatim>\<open>//\<close> on integers: floor division, raising on a zero divisor.\<close>

definition floordiv :: "int \<Rightarrow> int \<Rightarrow> error + int" where
  "floordiv a b = (if b = 0 then Inl ZeroDivisionError else Inr (a div b))"

text \<open>
  \<^verbatim>\<open>BottleneckBlock.__init__\<close> evaluates \<^verbatim>\<open>output_nc // reduction\<close> six times on the same
  operands: the first evaluation raises or all six give the same number \<open>mid\<close>.
\<close>

definition BottleneckBlock_init ::
  "int \<Rightarrow> int \<Rightarrow> convolution \<Rightarrow> int \<Rightarrow> error + res_module" where
  "BottleneckBlock_init input_nc output_nc convolution reduction =
     (case floordiv output_nc reduction of
        Inl e \<Rightarrow> Inl e
      | Inr mid \<Rightarrow>
          Inr (BottleneckBlock
            (Seq_append (Seq_append (Seq_append (Seq_append (Seq_append
             (Seq_append (Seq_append (Seq_append (Seq_append Seq
               (Conv Conv3d input_nc mid 1 (Some 1) None))
               (BatchNorm mid))
               (ReLU True))
               (Conv convolution mid mid 3 (Some 1) None))
               (BatchNorm mid))
               (ReLU True))
               (Conv Conv3d mid output_nc 1 None None))
               (BatchNorm output_nc))
               (ReLU True))
            (if input_nc \<noteq> output_nc
             then Some (Seq_append (Seq_append Seq
                    (Conv convolution input_nc output_nc 1 (Some 1) None))
                    (BatchNorm output_nc))
             else None)))"

text \<open>
  The two \<^verbatim>\<open>forward\<close> methods have the same text: run \<^verbatim>\<open>block\<close>, then add in place
  either \<^verbatim>\<open>downsample(x)\<close> or \<^verbatim>\<open>x\<close>. \<open>ap\<close> is what a layer of the library computes.
\<close>

definition ResBlock_forward ::
  "(layer \<Rightarrow> 't \<Rightarrow> 't) \<Rightarrow> layer Seq \<Rightarrow> layer Seq option \<Rightarrow> 't::plus \<Rightarrow> 't" where
  "ResBlock_forward ap blk ds x =
     (let out = Seq_forward ap blk x
      in if truthy ds then out + Seq_forward ap (case ds of Some d \<Rightarrow> d | None \<Rightarrow> []) x
         else out + x)"

definition BottleneckBlock_forward ::
  "(layer \<Rightarrow> 't \<Rightarrow> 't) \<Rightarrow> layer Seq \<Rightarrow> layer Seq option \<Rightarrow> 't::plus \<Rightarrow> 't" where
  "BottleneckBlock_forward ap blk ds x =
     (let out = Seq_forward ap blk x
      in if truthy ds then out + Seq_forward ap (case ds of Some d \<Rightarrow> d | None \<Rightarrow> []) x
         else out + x)"

text \<open>Calling a block object dispatches on its class.\<close>

fun forward :: "(layer \<Rightarrow> 't \<Rightarrow> 't) \<Rightarrow> res_module \<Rightarrow> 't::plus \<Rightarrow> 't" where
  "forward ap (ResBlock blk ds) x = ResBlock_forward ap blk ds x"
| "forward ap (BottleneckBlock blk ds) x = BottleneckBlock_forward ap blk ds x"

subsection \<open>Looking the block class up by name\<close>

text \<open>
  \<^verbatim>\<open>_res_blocks = sys.modules[__name__]\<close> is the module itself, and
  \<^verbatim>\<open>getattr(_res_blocks, block)\<close> looks the string \<open>block\<close> up among its attributes.
  The file binds the two block classes and the names below; the attributes the
  interpreter gives every module (\<^verbatim>\<open>__name__\<close>, \<^verbatim>\<open>__doc__\<close>, ...) are not in the file
  and are the parameter \<open>interp\<close>.
\<close>

datatype attr = ResBlock_class | BottleneckBlock_class | Other_attr string

definition module_names :: "string list" where
  "module_names =
     [''torch'', ''TS'', ''torchsparse'', ''sys'', ''partial'', ''Seq'', ''Identity'',
      ''_res_blocks'', ''ResNetDown'', ''ResNetUp'']"

definition hasattr_res_blocks :: "(string \<Rightarrow> bool) \<Rightarrow> string \<Rightarrow> bool" where
  "hasattr_res_blocks interp name =
     (name = ''ResBlock'' \<or> name = ''BottleneckBlock'' \<or> name \<in> set module_names \<or> interp name)"

definition getattr_res_blocks :: "(string \<Rightarrow> bool) \<Rightarrow> string \<Rightarrow> error + attr" where
  "getattr_res_blocks interp name =
     (if name = ''ResBlock'' then Inr ResBlock_class
      else if name = ''BottleneckBlock'' then Inr BottleneckBlock_class
      else if hasattr_res_blocks interp name then Inr (Other_attr name)
      else Inl AttributeError)"

text \<open>
  \<^verbatim>\<open>block(conv1_output, down_conv_nn[1], self.CONVOLUTION)\<close>: the call of what the lookup
  gave, with three positional arguments. \<^verbatim>\<open>BottleneckBlock\<close> takes its default
  \<^verbatim>\<open>reduction=4\<close>. Of the other names the file binds, the modules and \<^verbatim>\<open>partial\<close>
  raise \<^verbatim>\<open>TypeError\<close> on such a call, and so do \<^verbatim>\<open>ResNetDown\<close> and \<^verbatim>\<open>ResNetUp\<close> (they
  index their first argument, here an integer). \<^verbatim>\<open>Seq\<close>, \<^verbatim>\<open>Identity\<close> and the
  interpreter's attributes are not in the source files; their call is taken to be
  rejected the same way. The theorems on \<^verbatim>\<open>ResNetDown\<close> below speak of constructors that
  return, so with \<open>N > 0\<close> they speak of the two block classes only.
\<close>

fun call_block :: "attr \<Rightarrow> int \<Rightarrow> int \<Rightarrow> convolution \<Rightarrow> error + res_module" where
  "call_block ResBlock_class input_nc output_nc convolution =
     Inr (ResBlock_init input_nc output_nc convolution)"
| "call_block BottleneckBlock_class input_nc output_nc convolution =
     BottleneckBlock_init input_nc output_nc convolution 4"
| "call_block (Other_attr name) input_nc output_nc convolution = Inl TypeError"

subsection \<open>ResNetDown and ResNetUp\<close>

text \<open>Python's \<^verbatim>\<open>xs[i]\<close> for the indices 0 and 1 the source uses.\<close>

definition index :: "'a list \<Rightarrow> nat \<Rightarrow> error + 'a" where
  "index xs i = (if i < length xs then Inr (xs ! i) else Inl IndexError)"

record ResNetDown =
  conv_in :: "layer Seq"
  blocks :: "res_module Seq option"

text \<open>
  The loop \<^verbatim>\<open>for _ in range(N)\<close>: \<open>n\<close> iterations are left, \<open>conv1_output\<close> is the
  loop's variable and \<open>acc\<close> is \<^verbatim>\<open>self.blocks\<close> so far. Each iteration evaluates
  \<^verbatim>\<open>down_conv_nn[1]\<close>, calls \<open>block\<close>, appends the result, and assigns
  \<^verbatim>\<open>down_conv_nn[1]\<close> to \<open>conv1_output\<close>.
\<close>

fun make_blocks ::
  "attr \<Rightarrow> convolution \<Rightarrow> int list \<Rightarrow> nat \<Rightarrow> int \<Rightarrow> res_module Seq \<Rightarrow> error + res_module Seq" where
  "make_blocks blk CONVOLUTION down_conv_nn 0 conv1_output acc = Inr acc"
| "make_blocks blk CONVOLUTION down_conv_nn (Suc n) conv1_output acc =
     (case index down_conv_nn 1 of
        Inl e \<Rightarrow> Inl e
      | Inr out_nc \<Rightarrow>
          (case call_block blk conv1_output out_nc CONVOLUTION of
             Inl e \<Rightarrow> Inl e
           | Inr b \<Rightarrow>
               (case index down_conv_nn 1 of
                  Inl e \<Rightarrow> Inl e
                | Inr conv1_output' \<Rightarrow>
                    make_blocks blk CONVOLUTION down_conv_nn n conv1_output'
                      (Seq_append acc b))))"

text \<open>
  \<^verbatim>\<open>ResNetDown.__init__\<close>. \<open>CONVOLUTION\<close> is the class attribute the object reads through
  \<^verbatim>\<open>self\<close>: \<^verbatim>\<open>TS.nn.Conv3d\<close> in \<^verbatim>\<open>ResNetDown\<close>, the transposed one in \<^verbatim>\<open>ResNetUp\<close>. The
  statements run in the source's order: the lookup of the argument \<^verbatim>\<open>block\<close> (here
  \<open>block_name\<close>), the choice of
  \<open>conv1_output\<close>, the first stack, then the blocks. Further keyword arguments are
  accepted and ignored.
\<close>

definition ResNetDown_init ::
  "(string \<Rightarrow> bool) \<Rightarrow> convolution \<Rightarrow> int list \<Rightarrow> int \<Rightarrow> int \<Rightarrow> int \<Rightarrow> int \<Rightarrow> string
     \<Rightarrow> error + ResNetDown" where
  "ResNetDown_init interp CONVOLUTION down_conv_nn kernel_size dilation stride N block_name =
     (case getattr_res_blocks interp block_name of
        Inl e \<Rightarrow> Inl e
      | Inr blk \<Rightarrow>
          (case (if stride > 1 then index down_conv_nn 0 else index down_conv_nn 1) of
             Inl e \<Rightarrow> Inl e
           | Inr conv1_output \<Rightarrow>
               (case index down_conv_nn 0 of
                  Inl e \<Rightarrow> Inl e
                | Inr in_nc \<Rightarrow>
                    (let conv_in' = Seq_append (Seq_append (Seq_append Seq
                           (Conv CONVOLUTION in_nc conv1_output kernel_size
                              (Some stride) (Some dilation)))
                           (BatchNorm conv1_output))
                           (ReLU True)
                     in if N > 0
                        then (case make_blocks blk CONVOLUTION down_conv_nn (nat N)
                                     conv1_output Seq of
                                Inl e \<Rightarrow> Inl e
                              | Inr bs \<Rightarrow> Inr \<lparr>conv_in = conv_in', blocks = Some bs\<rparr>)
                        else Inr \<lparr>conv_in = conv_in', blocks = None\<rparr>))))"

definition ResNetDown_CONVOLUTION :: convolution where
  "ResNetDown_CONVOLUTION = Conv3d"

definition ResNetUp_CONVOLUTION :: convolution where
  "ResNetUp_CONVOLUTION = Conv3d_transpose"

definition ResNetUp_init ::
  "(string \<Rightarrow> bool) \<Rightarrow> int list \<Rightarrow> int \<Rightarrow> int \<Rightarrow> int \<Rightarrow> int \<Rightarrow> string \<Rightarrow> error + ResNetDown" where
  "ResNetUp_init interp up_conv_nn kernel_size dilation stride N block_name =
     ResNetDown_init interp ResNetUp_CONVOLUTION up_conv_nn kernel_size dilation stride N
       block_name"

definition ResNetDown_forward ::
  "(layer \<Rightarrow> 't \<Rightarrow> 't) \<Rightarrow> ResNetDown \<Rightarrow> 't::plus \<Rightarrow> 't" where
  "ResNetDown_forward ap self x =
     (let out = Seq_forward ap (conv_in self) x
      in if truthy (blocks self)
         then Seq_forward (forward ap) (case blocks self of Some bs \<Rightarrow> bs | None \<Rightarrow> []) out
         else out)"

text \<open>\<^verbatim>\<open>ResNetUp.forward(x, skip)\<close>; \<open>cat\<close> is the library's \<^verbatim>\<open>TS.cat\<close>.\<close>

definition ResNetUp_forward ::
  "(layer \<Rightarrow> 't \<Rightarrow> 't) \<Rightarrow> ('t list \<Rightarrow> 't) \<Rightarrow> ResNetDown \<Rightarrow> 't::plus \<Rightarrow> 't option \<Rightarrow> 't" where
  "ResNetUp_forward ap cat self x skip =
     (let inp = (case skip of Some s \<Rightarrow> cat [x, s] | None \<Rightarrow> x)
      in ResNetDown_forward ap self inp)"

subsection \<open>Channel counts\<close>

text \<open>
  The vocabulary of the claim about channel consistency, not code of the file: what
  the library's layers do to the number of feature channels. A convolution built for
  \<open>i\<close> input and \<open>o\<close> output channels takes \<open>i\<close> channels to \<open>o\<close>; a batch normalisation
  built for \<open>n\<close> channels takes \<open>n\<close> to \<open>n\<close>; a ReLU keeps any count. \<open>None\<close> means the
  layer is fed a count it was not built for. A block adds its two branches, so both
  must end in the same count.
\<close>

fun layer_channels :: "layer \<Rightarrow> int \<Rightarrow> int option" where
  "layer_channels (Conv k i out ks st dl) n = (if n = i then Some out else None)"
| "layer_channels (BatchNorm k) n = (if n = k then Some n else None)"
| "layer_channels (ReLU b) n = Some n"

fun Seq_channels :: "('m \<Rightarrow> int \<Rightarrow> int option) \<Rightarrow> 'm Seq \<Rightarrow> int \<Rightarrow> int option" where
  "Seq_channels ch [] n = Some n"
| "Seq_channels ch (m # ms) n =
     (case ch m n of None \<Rightarrow> None | Some n' \<Rightarrow> Seq_channels ch ms n')"

definition module_channels :: "res_module \<Rightarrow> int \<Rightarrow> int option" where
  "module_channels m n =
     (case Seq_channels layer_channels (block m) n of
        None \<Rightarrow> None
      | Some out \<Rightarrow>
          (let shortcut = (if truthy (downsample m)
                           then Seq_channels layer_channels
                                  (case downsample m of Some d \<Rightarrow> d | None \<Rightarrow> []) n
                           else Some n)
           in if shortcut = Some out then Some out else None))"

definition ResNetDown_channels :: "ResNetDown \<Rightarrow> int \<Rightarrow> int option" where
  "ResNetDown_channels self n =
     (case Seq_channels layer_channels (conv_in self) n of
        None \<Rightarrow> None
      | Some c \<Rightarrow>
          (if truthy (blocks self)
           then Seq_channels module_channels (case blocks self of Some bs \<Rightarrow> bs | None \<Rightarrow> []) c
           else Some c))"

section \<open>Construction of the blocks\<close>

lemma Seq_append_simps:
  "Seq_append Seq m = [m]" "Seq_append [] m = [m]"
  "Seq_append (x # xs) m = x # Seq_append xs m"
  by (simp_all add: Seq_def Seq_append_def)

text \<open>
  Claim C3. \<^verbatim>\<open>ResBlock.__init__(input_nc, output_nc, convolution)\<close> builds its main branch
  as exactly six layers in this order: the convolution from \<open>input_nc\<close> to \<open>output_nc\<close>
  with kernel size 3 and stride 1, batch normalisation over \<open>output_nc\<close> channels, ReLU,
  the convolution from \<open>output_nc\<close> to \<open>output_nc\<close> with kernel size 3 and stride 1,
  batch normalisation over \<open>output_nc\<close> channels, ReLU.
\<close>

theorem ResBlock_init_block:
  "block (ResBlock_init input_nc output_nc convolution) =
     [Conv convolution input_nc output_nc 3 (Some 1) None, BatchNorm output_nc, ReLU True,
      Conv convolution output_nc output_nc 3 (Some 1) None, BatchNorm output_nc, ReLU True]"
  by (simp add: ResBlock_init_def Seq_append_simps)

lemma ResBlock_init_eq:
  "ResBlock_init i out c =
     ResBlock
       [Conv c i out 3 (Some 1) None, BatchNorm out, ReLU True,
        Conv c out out 3 (Some 1) None, BatchNorm out, ReLU True]
       (if i \<noteq> out then Some [Conv Conv3d i out 1 (Some 1) None, BatchNorm out] else None)"
  by (simp add: ResBlock_init_def Seq_append_simps)

lemma BottleneckBlock_init_eq:
  "r \<noteq> 0 \<Longrightarrow>
   BottleneckBlock_init i out c r =
     Inr (BottleneckBlock
       [Conv Conv3d i (out div r) 1 (Some 1) None, BatchNorm (out div r), ReLU True,
        Conv c (out div r) (out div r) 3 (Some 1) None, BatchNorm (out div r), ReLU True,
        Conv Conv3d (out div r) out 1 None None, BatchNorm out, ReLU True]
       (if i \<noteq> out then Some [Conv c i out 1 (Some 1) None, BatchNorm out] else None))"
  by (simp add: BottleneckBlock_init_def floordiv_def Seq_append_simps)

lemma BottleneckBlock_init_zero:
  "BottleneckBlock_init i out c 0 = Inl ZeroDivisionError"
  by (simp add: BottleneckBlock_init_def floordiv_def)

text \<open>
  Claim C4. \<^verbatim>\<open>BottleneckBlock.__init__(input_nc, output_nc, convolution, reduction)\<close>
  returns for every non-zero \<open>reduction\<close> (4 by default), and its main branch is then
  exactly nine layers: \<^verbatim>\<open>TS.nn.Conv3d\<close> with kernel size 1 from \<open>input_nc\<close> to \<open>mid\<close>
  channels, batch normalisation, ReLU, \<open>convolution\<close> with kernel size 3 from \<open>mid\<close> to
  \<open>mid\<close>, batch normalisation, ReLU, \<^verbatim>\<open>TS.nn.Conv3d\<close> with kernel size 1 from \<open>mid\<close> to
  \<open>output_nc\<close>, batch normalisation, ReLU, where \<open>mid\<close> is the floor of
  \<open>output_nc / reduction\<close>. (With \<open>reduction = 0\<close> the first \<^verbatim>\<open>//\<close> raises:
  \<open>BottleneckBlock_init_zero\<close>.)
\<close>

theorem BottleneckBlock_init_block:
  "reduction \<noteq> 0 \<Longrightarrow>
   \<exists>m mid. mid = \<lfloor>real_of_int output_nc / real_of_int reduction\<rfloor> \<and>
     BottleneckBlock_init input_nc output_nc convolution reduction = Inr m \<and>
     block m =
       [Conv Conv3d input_nc mid 1 (Some 1) None, BatchNorm mid, ReLU True,
        Conv convolution mid mid 3 (Some 1) None, BatchNorm mid, ReLU True,
        Conv Conv3d mid output_nc 1 None None, BatchNorm output_nc, ReLU True]"
  by (simp add: BottleneckBlock_init_eq floor_divide_of_int_eq)

theorem BottleneckBlock_init_block_witness:
  "(4::int) \<noteq> 0 \<and>
   (\<exists>m. BottleneckBlock_init 3 10 Conv3d_transpose 4 = Inr m \<and>
     block m =
       [Conv Conv3d 3 2 1 (Some 1) None, BatchNorm 2, ReLU True,
        Conv Conv3d_transpose 2 2 3 (Some 1) None, BatchNorm 2, ReLU True,
        Conv Conv3d 2 10 1 None None, BatchNorm 10, ReLU True])"
proof -
  have "\<lfloor>real_of_int 10 / real_of_int 4\<rfloor> = 2" by (simp add: floor_eq_iff)
  then show ?thesis
    using BottleneckBlock_init_block [of 4 10 3 Conv3d_transpose] by simp
qed

text \<open>
  Claim C2. In both constructors the projection shortcut, a convolution with kernel
  size 1 and stride 1 from \<open>input_nc\<close> to \<open>output_nc\<close> channels followed by a batch
  normalisation, is built if and only if \<open>input_nc \<noteq> output_nc\<close>; when the two are
  equal, \<^verbatim>\<open>downsample\<close> is \<^verbatim>\<open>None\<close>. For \<^verbatim>\<open>BottleneckBlock\<close> this is the state of the
  object the constructor returns, which it does for every non-zero \<open>reduction\<close>.
\<close>

theorem projection_iff_channels_differ:
  "((downsample (ResBlock_init i out c) \<noteq> None) = (i \<noteq> out)) \<and>
   (i \<noteq> out \<longrightarrow>
      (\<exists>k dl. downsample (ResBlock_init i out c) =
                Some [Conv k i out 1 (Some 1) dl, BatchNorm out])) \<and>
   (r \<noteq> 0 \<longrightarrow>
      (\<exists>m. BottleneckBlock_init i out c r = Inr m \<and>
           ((downsample m \<noteq> None) = (i \<noteq> out)) \<and>
           (i \<noteq> out \<longrightarrow>
              (\<exists>k dl. downsample m = Some [Conv k i out 1 (Some 1) dl, BatchNorm out]))))"
  by (simp add: ResBlock_init_eq BottleneckBlock_init_eq)

theorem projection_iff_channels_differ_witness:
  "(3::int) \<noteq> 8 \<and> (4::int) \<noteq> 0 \<and>
   downsample (ResBlock_init 3 8 Conv3d_transpose) \<noteq> None \<and>
   (\<exists>k dl. downsample (ResBlock_init 3 8 Conv3d_transpose) =
             Some [Conv k 3 8 1 (Some 1) dl, BatchNorm 8]) \<and>
   downsample (ResBlock_init 8 8 Conv3d_transpose) = None \<and>
   (\<exists>m. BottleneckBlock_init 3 8 Conv3d_transpose 4 = Inr m \<and> downsample m \<noteq> None) \<and>
   (\<exists>m. BottleneckBlock_init 8 8 Conv3d_transpose 4 = Inr m \<and> downsample m = None)"
  using projection_iff_channels_differ [of 3 8 Conv3d_transpose 4]
        projection_iff_channels_differ [of 8 8 Conv3d_transpose 4]
  by auto

text \<open>
  Claim C7. The projection of \<^verbatim>\<open>ResBlock\<close> is built with \<^verbatim>\<open>TS.nn.Conv3d\<close> whatever the
  argument \<open>convolution\<close> is, the projection of \<^verbatim>\<open>BottleneckBlock\<close> is built with the
  argument \<open>convolution\<close> itself; in both the convolution is followed by
  \<^verbatim>\<open>BatchNorm(output_nc)\<close> and by nothing else, so by no activation.
\<close>

theorem projection_convolution:
  "(i \<noteq> out \<longrightarrow>
      downsample (ResBlock_init i out c) =
        Some [Conv Conv3d i out 1 (Some 1) None, BatchNorm out]) \<and>
   downsample (ResBlock_init i out c) = downsample (ResBlock_init i out c') \<and>
   (i \<noteq> out \<and> r \<noteq> 0 \<longrightarrow>
      (\<exists>m. BottleneckBlock_init i out c r = Inr m \<and>
           downsample m = Some [Conv c i out 1 (Some 1) None, BatchNorm out]))"
  by (simp add: ResBlock_init_eq BottleneckBlock_init_eq)

theorem projection_convolution_witness:
  "(3::int) \<noteq> 8 \<and> (4::int) \<noteq> 0 \<and>
   downsample (ResBlock_init 3 8 (Callable ''MyConv'')) =
     Some [Conv Conv3d 3 8 1 (Some 1) None, BatchNorm 8] \<and>
   (\<exists>m. BottleneckBlock_init 3 8 (Callable ''MyConv'') 4 = Inr m \<and>
        downsample m = Some [Conv (Callable ''MyConv'') 3 8 1 (Some 1) None, BatchNorm 8])"
  using projection_convolution [of 3 8 "Callable ''MyConv''" Conv3d 4]
  by simp

section \<open>The forward pass of a block\<close>

text \<open>
  For any block object, built by a constructor or not: the result is the main branch
  plus the shortcut. (An empty \<^verbatim>\<open>downsample\<close> stack would be false and \<open>x\<close> itself is
  added, which is also what running an empty stack gives.)
\<close>

lemma forward_eq:
  "forward ap m x =
     Seq_forward ap (block m) x +
       (case downsample m of None \<Rightarrow> x | Some d \<Rightarrow> Seq_forward ap d x)"
proof (cases m)
  case (ResBlock blk ds)
  then show ?thesis
    by (cases ds) (simp_all add: ResBlock_forward_def Seq_forward_def Let_def)
next
  case (BottleneckBlock blk ds)
  then show ?thesis
    by (cases ds) (simp_all add: BottleneckBlock_forward_def Seq_forward_def Let_def)
qed


lemma ResBlock_forward_sum:
  "(i \<noteq> out \<longrightarrow>
      (\<exists>d. downsample (ResBlock_init i out c) = Some d \<and>
           forward ap (ResBlock_init i out c) x =
             Seq_forward ap (block (ResBlock_init i out c)) x + Seq_forward ap d x)) \<and>
   (i = out \<longrightarrow>
      forward ap (ResBlock_init i out c) x =
        Seq_forward ap (block (ResBlock_init i out c)) x + x)"
  unfolding forward_eq by (simp add: ResBlock_init_eq)

lemma BottleneckBlock_forward_sum:
  assumes "r \<noteq> 0"
  shows "\<exists>m. BottleneckBlock_init i out c r = Inr m \<and>
     (i \<noteq> out \<longrightarrow>
        (\<exists>d. downsample m = Some d \<and>
             forward ap m x = Seq_forward ap (block m) x + Seq_forward ap d x)) \<and>
     (i = out \<longrightarrow> forward ap m x = Seq_forward ap (block m) x + x)"
  unfolding forward_eq by (simp add: BottleneckBlock_init_eq [OF assms])

text \<open>
  Claim C1. For every input \<open>x\<close>, \<^verbatim>\<open>ResBlock.forward(x)\<close> and
  \<^verbatim>\<open>BottleneckBlock.forward(x)\<close> return \<open>block(x) + s(x)\<close>: on an object built with
  \<open>input_nc \<noteq> output_nc\<close> the attribute \<^verbatim>\<open>downsample\<close> is a stack \<open>d\<close> and \<open>s(x) = d(x)\<close>;
  on an object built with \<open>input_nc = output_nc\<close>, \<open>s(x) = x\<close>. This holds whatever the
  layers compute (\<open>ap\<close>) and whatever the addition of tensors is.
\<close>

theorem forward_residual_sum:
  "((i \<noteq> out \<longrightarrow>
      (\<exists>d. downsample (ResBlock_init i out c) = Some d \<and>
           forward ap (ResBlock_init i out c) x =
             Seq_forward ap (block (ResBlock_init i out c)) x + Seq_forward ap d x)) \<and>
    (i = out \<longrightarrow>
      forward ap (ResBlock_init i out c) x =
        Seq_forward ap (block (ResBlock_init i out c)) x + x)) \<and>
   (r \<noteq> 0 \<longrightarrow>
      (\<exists>m. BottleneckBlock_init i out c r = Inr m \<and>
         (i \<noteq> out \<longrightarrow>
            (\<exists>d. downsample m = Some d \<and>
                 forward ap m x = Seq_forward ap (block m) x + Seq_forward ap d x)) \<and>
         (i = out \<longrightarrow> forward ap m x = Seq_forward ap (block m) x + x)))"
  using ResBlock_forward_sum [of i out c ap x] BottleneckBlock_forward_sum [of r i out c ap x]
  by blast


theorem forward_residual_sum_witness:
  "(3::int) \<noteq> 8 \<and> (4::int) \<noteq> 0 \<and>
   forward (\<lambda>l v. case l of Conv k a b ks st dl \<Rightarrow> 2 * v | BatchNorm n \<Rightarrow> v + 1
                       | ReLU b \<Rightarrow> max 0 v) (ResBlock_init 3 8 Conv3d) (5::int) = 34 \<and>
   forward (\<lambda>l v. case l of Conv k a b ks st dl \<Rightarrow> 2 * v | BatchNorm n \<Rightarrow> v + 1
                       | ReLU b \<Rightarrow> max 0 v) (ResBlock_init 8 8 Conv3d_transpose) (5::int) = 28 \<and>
   (\<exists>m. BottleneckBlock_init 3 8 Conv3d 4 = Inr m \<and>
        forward (\<lambda>l v. case l of Conv k a b ks st dl \<Rightarrow> 2 * v | BatchNorm n \<Rightarrow> v + 1
                          | ReLU b \<Rightarrow> max 0 v) m (5::int) = 58)"
  using forward_residual_sum [of 3 8 Conv3d
          "\<lambda>l v. case l of Conv k a b ks st dl \<Rightarrow> 2 * v | BatchNorm n \<Rightarrow> v + 1
                    | ReLU b \<Rightarrow> max 0 v" "5::int" 4]
        forward_residual_sum [of 8 8 Conv3d_transpose
          "\<lambda>l v. case l of Conv k a b ks st dl \<Rightarrow> 2 * v | BatchNorm n \<Rightarrow> v + 1
                    | ReLU b \<Rightarrow> max 0 v" "5::int" 4]
  by (simp add: ResBlock_init_eq BottleneckBlock_init_eq Seq_forward_def)

section \<open>Construction of ResNetDown and ResNetUp\<close>

lemma getattr_missing:
  "\<not> hasattr_res_blocks interp name \<Longrightarrow> getattr_res_blocks interp name = Inl AttributeError"
  by (auto simp: getattr_res_blocks_def hasattr_res_blocks_def)

lemma getattr_present:
  "hasattr_res_blocks interp name \<Longrightarrow> \<exists>blk. getattr_res_blocks interp name = Inr blk"
  by (simp add: getattr_res_blocks_def)

lemma index_Nil: "index [] i = Inl IndexError"
  by (simp add: index_def)

text \<open>
  Claim C5. The constructors handle no failure and validate no argument: the exception
  of the first failing statement reaches the caller and no object is returned.
  \<^verbatim>\<open>ResNetDown.__init__\<close> (and \<^verbatim>\<open>ResNetUp.__init__\<close>, which calls it) with a \<open>block\<close> name
  that is not an attribute of the module raises \<^verbatim>\<open>AttributeError\<close> from \<^verbatim>\<open>getattr\<close>,
  whatever the other arguments are; with a name that is an attribute (the default
  \<^verbatim>\<open>"ResBlock"\<close> is one) and the default \<^verbatim>\<open>down_conv_nn=[]\<close> it raises \<^verbatim>\<open>IndexError\<close>
  at the first index into \<^verbatim>\<open>down_conv_nn\<close>, for every stride and \<open>N\<close>.
\<close>

theorem ResNetDown_init_unguarded:
  "(\<not> hasattr_res_blocks interp name \<longrightarrow>
      ResNetDown_init interp CONVOLUTION down_conv_nn kernel_size dilation stride N name =
        Inl AttributeError \<and>
      ResNetUp_init interp down_conv_nn kernel_size dilation stride N name =
        Inl AttributeError) \<and>
   (hasattr_res_blocks interp name \<longrightarrow>
      ResNetDown_init interp CONVOLUTION [] kernel_size dilation stride N name =
        Inl IndexError \<and>
      ResNetUp_init interp [] kernel_size dilation stride N name = Inl IndexError)"
proof (cases "hasattr_res_blocks interp name")
  case True
  then obtain blk where "getattr_res_blocks interp name = Inr blk"
    using getattr_present by blast
  with True show ?thesis
    by (simp add: ResNetDown_init_def ResNetUp_init_def index_Nil)
next
  case False
  then show ?thesis
    by (simp add: ResNetDown_init_def ResNetUp_init_def getattr_missing)
qed

theorem ResNetDown_init_unguarded_witness:
  "\<not> hasattr_res_blocks (\<lambda>n. n \<in> set [''__name__'', ''__doc__'']) ''MyBlock'' \<and>
   hasattr_res_blocks (\<lambda>n. n \<in> set [''__name__'', ''__doc__'']) ''ResBlock'' \<and>
   ResNetDown_init (\<lambda>n. n \<in> set [''__name__'', ''__doc__'']) ResNetDown_CONVOLUTION
     [32, 64] 2 1 2 1 ''MyBlock'' = Inl AttributeError \<and>
   ResNetDown_init (\<lambda>n. n \<in> set [''__name__'', ''__doc__'']) ResNetDown_CONVOLUTION
     [] 2 1 2 1 ''ResBlock'' = Inl IndexError"
  using ResNetDown_init_unguarded [of "\<lambda>n. n \<in> set [''__name__'', ''__doc__'']" "''MyBlock''"
          ResNetDown_CONVOLUTION "[32, 64]" 2 1 2 1]
        ResNetDown_init_unguarded [of "\<lambda>n. n \<in> set [''__name__'', ''__doc__'']" "''ResBlock''"
          ResNetDown_CONVOLUTION "[32, 64]" 2 1 2 1]
  by (simp add: hasattr_res_blocks_def module_names_def)

subsection \<open>What the loop over the blocks builds\<close>

text \<open>
  When the loop returns, it has appended \<open>n\<close> objects to \<^verbatim>\<open>self.blocks\<close>: the first is
  the call of \<open>block\<close> on the loop variable's starting value and \<^verbatim>\<open>down_conv_nn[1]\<close>,
  every later one the call on \<^verbatim>\<open>down_conv_nn[1]\<close> twice.
\<close>

lemma index_Inr: "index xs i = Inr v \<longleftrightarrow> i < length xs \<and> v = xs ! i"
  by (auto simp: index_def)

lemma call_block_class:
  "blk = ResBlock_class \<or> blk = BottleneckBlock_class \<Longrightarrow>
   \<exists>b. call_block blk i out c = Inr b"
  by (auto simp: BottleneckBlock_init_eq)

lemma make_blocks_Inr:
  "make_blocks blk C dc n c acc = Inr bs \<Longrightarrow>
   \<exists>new. bs = acc @ new \<and> length new = n \<and>
     (\<forall>j<n. call_block blk (if j = 0 then c else dc ! 1) (dc ! 1) C = Inr (new ! j)) \<and>
     (0 < n \<longrightarrow> 2 \<le> length dc)"
proof (induction n arbitrary: c acc)
  case 0
  then show ?case by simp
next
  case (Suc n)
  from Suc.prems obtain b where
    len: "1 < length dc" and
    b: "call_block blk c (dc ! 1) C = Inr b" and
    rest: "make_blocks blk C dc n (dc ! 1) (Seq_append acc b) = Inr bs"
    by (auto simp: index_Inr split: sum.splits)
  from Suc.IH [OF rest] obtain new where
    new: "bs = Seq_append acc b @ new" "length new = n"
      "\<forall>j<n. call_block blk (dc ! 1) (dc ! 1) C = Inr (new ! j)"
    by auto
  have "\<forall>j<Suc n. call_block blk (if j = 0 then c else dc ! 1) (dc ! 1) C = Inr ((b # new) ! j)"
  proof (intro allI impI)
    fix j assume "j < Suc n"
    then show "call_block blk (if j = 0 then c else dc ! 1) (dc ! 1) C = Inr ((b # new) ! j)"
      using b new(3) by (cases j) simp_all
  qed
  moreover have "bs = acc @ (b # new)" using new(1) by (simp add: Seq_append_def)
  moreover have "length (b # new) = Suc n" using new(2) by simp
  ultimately show ?case using len by fastforce
qed

lemma make_blocks_returns:
  "blk = ResBlock_class \<or> blk = BottleneckBlock_class \<Longrightarrow> 2 \<le> length dc \<Longrightarrow>
   \<exists>bs. make_blocks blk C dc n c acc = Inr bs"
proof (induction n arbitrary: c acc)
  case 0
  then show ?case by simp
next
  case (Suc n)
  from Suc.prems(1) obtain b where b: "call_block blk c (dc ! 1) C = Inr b"
    using call_block_class by blast
  have i: "index dc 1 = Inr (dc ! 1)" using Suc.prems(2) by (simp add: index_def)
  from Suc.IH [OF Suc.prems] obtain bs where
    "make_blocks blk C dc n (dc ! 1) (Seq_append acc b) = Inr bs" by blast
  then show ?case using i b by simp
qed

text \<open>
  What a returning constructor has done, statement by statement; and that the
  constructor does return for either block class and a \<^verbatim>\<open>down_conv_nn\<close> of at least
  two entries, whatever the stride and \<open>N\<close> are.
\<close>

lemma ResNetDown_init_Inr:
  assumes "ResNetDown_init interp C dc ks dil st N name = Inr self"
  shows "\<exists>blk. getattr_res_blocks interp name = Inr blk \<and> 0 < length dc \<and>
           (st \<le> 1 \<longrightarrow> 2 \<le> length dc) \<and>
           conv_in self =
             [Conv C (dc ! 0) (if st > 1 then dc ! 0 else dc ! 1) ks (Some st) (Some dil),
              BatchNorm (if st > 1 then dc ! 0 else dc ! 1), ReLU True] \<and>
           (if N > 0
            then \<exists>bs. make_blocks blk C dc (nat N) (if st > 1 then dc ! 0 else dc ! 1) [] = Inr bs
                       \<and> blocks self = Some bs
            else blocks self = None)"
proof -
  from assms obtain blk where blk: "getattr_res_blocks interp name = Inr blk"
    by (auto simp: ResNetDown_init_def split: sum.splits)
  from assms blk obtain c1 where
    c1: "(if st > 1 then index dc 0 else index dc 1) = Inr c1"
    by (auto simp: ResNetDown_init_def split: sum.splits)
  from assms blk c1 obtain c0 where c0: "index dc 0 = Inr c0"
    by (auto simp: ResNetDown_init_def split: sum.splits)
  have len: "0 < length dc" and c0_eq: "c0 = dc ! 0"
    using c0 by (simp_all add: index_Inr)
  have c1_eq: "c1 = (if st > 1 then dc ! 0 else dc ! 1)" and len2: "st \<le> 1 \<longrightarrow> 2 \<le> length dc"
    using c1 by (auto simp: index_Inr split: if_splits)
  have rest: "(if N > 0
        then (case make_blocks blk C dc (nat N) c1 Seq of
                Inl e \<Rightarrow> Inl e
              | Inr bs \<Rightarrow> Inr \<lparr>conv_in = [Conv C c0 c1 ks (Some st) (Some dil), BatchNorm c1,
                                          ReLU True], blocks = Some bs\<rparr>)
        else Inr \<lparr>conv_in = [Conv C c0 c1 ks (Some st) (Some dil), BatchNorm c1, ReLU True],
                  blocks = None\<rparr>) = Inr self"
    using assms by (simp add: ResNetDown_init_def blk c1 c0 Seq_append_simps Let_def)
  have ci: "conv_in self = [Conv C c0 c1 ks (Some st) (Some dil), BatchNorm c1, ReLU True]"
    using rest by (auto split: if_splits sum.splits)
  have bl: "if N > 0 then \<exists>bs. make_blocks blk C dc (nat N) c1 [] = Inr bs \<and> blocks self = Some bs
            else blocks self = None"
    using rest by (auto simp: Seq_def split: if_splits sum.splits)
  show ?thesis
    using blk len len2 ci bl unfolding c0_eq c1_eq by blast
qed

lemma ResNetDown_init_returns:
  assumes "name = ''ResBlock'' \<or> name = ''BottleneckBlock''" and "2 \<le> length dc"
  shows "\<exists>self. ResNetDown_init interp C dc ks dil st N name = Inr self"
proof -
  from assms(1) obtain blk where
    blk: "getattr_res_blocks interp name = Inr blk"
      "blk = ResBlock_class \<or> blk = BottleneckBlock_class"
    by (auto simp: getattr_res_blocks_def)
  have i0: "index dc 0 = Inr (dc ! 0)" and i1: "index dc 1 = Inr (dc ! 1)"
    using assms(2) by (auto simp: index_def)
  obtain bs where
    "make_blocks blk C dc (nat N) (if st > 1 then dc ! 0 else dc ! 1) Seq = Inr bs"
    using make_blocks_returns [OF blk(2) assms(2)] by blast
  then show ?thesis
    using i0 i1 by (cases "1 < st") (simp_all add: ResNetDown_init_def blk(1) Let_def)
qed

section \<open>The forward pass of ResNetDown\<close>

lemma ResNetDown_forward_None:
  "blocks self = None \<Longrightarrow> ResNetDown_forward ap self x = Seq_forward ap (conv_in self) x"
  by (simp add: ResNetDown_forward_def)

lemma ResNetDown_forward_Some:
  "blocks self = Some bs \<Longrightarrow>
   ResNetDown_forward ap self x =
     foldl (\<lambda>v b. forward ap b v) (Seq_forward ap (conv_in self) x) bs"
  by (cases bs) (simp_all add: ResNetDown_forward_def Seq_forward_def Let_def)

text \<open>
  Claim C8. On a \<^verbatim>\<open>ResNetDown\<close> the constructor has returned: \<^verbatim>\<open>conv_in\<close> is the strided
  convolution, a batch normalisation and a ReLU. Built with \<open>N \<le> 0\<close>, \<^verbatim>\<open>self.blocks\<close> is
  \<^verbatim>\<open>None\<close> and \<^verbatim>\<open>forward(x)\<close> returns exactly \<^verbatim>\<open>conv_in(x)\<close>. Built with \<open>N > 0\<close>,
  \<^verbatim>\<open>self.blocks\<close> holds \<open>N\<close> objects, each the result of calling the block class, and
  \<^verbatim>\<open>forward(x)\<close> returns what they give when applied one after the other, in the order
  they were appended, to \<^verbatim>\<open>conv_in(x)\<close>.
\<close>

theorem ResNetDown_forward_blocks:
  assumes "ResNetDown_init interp CONVOLUTION down_conv_nn kernel_size dilation stride N name
             = Inr self"
  shows "conv_in self =
           [Conv CONVOLUTION (down_conv_nn ! 0)
              (if stride > 1 then down_conv_nn ! 0 else down_conv_nn ! 1)
              kernel_size (Some stride) (Some dilation),
            BatchNorm (if stride > 1 then down_conv_nn ! 0 else down_conv_nn ! 1),
            ReLU True] \<and>
         (N \<le> 0 \<longrightarrow>
            blocks self = None \<and>
            ResNetDown_forward ap self x = Seq_forward ap (conv_in self) x) \<and>
         (0 < N \<longrightarrow>
            (\<exists>blk bs. getattr_res_blocks interp name = Inr blk \<and>
               blocks self = Some bs \<and> length bs = nat N \<and>
               (\<forall>j<nat N.
                  call_block blk
                    (if j = 0 then (if stride > 1 then down_conv_nn ! 0 else down_conv_nn ! 1)
                     else down_conv_nn ! 1)
                    (down_conv_nn ! 1) CONVOLUTION = Inr (bs ! j)) \<and>
               ResNetDown_forward ap self x =
                 foldl (\<lambda>v b. forward ap b v) (Seq_forward ap (conv_in self) x) bs))"
proof -
  from ResNetDown_init_Inr [OF assms] obtain blk where
    blk: "getattr_res_blocks interp name = Inr blk" and
    ci: "conv_in self =
           [Conv CONVOLUTION (down_conv_nn ! 0)
              (if stride > 1 then down_conv_nn ! 0 else down_conv_nn ! 1)
              kernel_size (Some stride) (Some dilation),
            BatchNorm (if stride > 1 then down_conv_nn ! 0 else down_conv_nn ! 1),
            ReLU True]" and
    bl: "if N > 0
         then \<exists>bs. make_blocks blk CONVOLUTION down_conv_nn (nat N)
                      (if stride > 1 then down_conv_nn ! 0 else down_conv_nn ! 1) [] = Inr bs
                    \<and> blocks self = Some bs
         else blocks self = None"
    by blast
  have none: "blocks self = None \<and>
      ResNetDown_forward ap self x = Seq_forward ap (conv_in self) x" if "N \<le> 0"
    using that bl by (simp add: ResNetDown_forward_None)
  have some: "\<exists>blk bs. getattr_res_blocks interp name = Inr blk \<and>
               blocks self = Some bs \<and> length bs = nat N \<and>
               (\<forall>j<nat N.
                  call_block blk
                    (if j = 0 then (if stride > 1 then down_conv_nn ! 0 else down_conv_nn ! 1)
                     else down_conv_nn ! 1)
                    (down_conv_nn ! 1) CONVOLUTION = Inr (bs ! j)) \<and>
               ResNetDown_forward ap self x =
                 foldl (\<lambda>v b. forward ap b v) (Seq_forward ap (conv_in self) x) bs"
    if "0 < N"
  proof -
    from that bl obtain bs where
      mk: "make_blocks blk CONVOLUTION down_conv_nn (nat N)
             (if stride > 1 then down_conv_nn ! 0 else down_conv_nn ! 1) [] = Inr bs" and
      bs: "blocks self = Some bs"
      by auto
    from make_blocks_Inr [OF mk] have
      "length bs = nat N"
      "\<forall>j<nat N.
          call_block blk
            (if j = 0 then (if stride > 1 then down_conv_nn ! 0 else down_conv_nn ! 1)
             else down_conv_nn ! 1)
            (down_conv_nn ! 1) CONVOLUTION = Inr (bs ! j)"
      by auto
    with blk bs ResNetDown_forward_Some [OF bs, of ap x] show ?thesis by blast
  qed
  show ?thesis using ci none some by blast
qed


theorem ResNetDown_forward_blocks_witness:
  "(\<exists>self. ResNetDown_init (\<lambda>n. False) Conv3d [4, 8] 2 1 2 0 ''ResBlock''
             = Inr self \<and>
      blocks self = None \<and>
      ResNetDown_forward
        (\<lambda>l v. case l of Conv k a b ks st dl \<Rightarrow> 2 * v | BatchNorm n \<Rightarrow> v + 1
                  | ReLU b \<Rightarrow> max 0 v) self (5::int) = 11) \<and>
   (\<exists>self bs. ResNetDown_init (\<lambda>n. False) Conv3d [4, 8] 2 1 2 2 ''ResBlock''
             = Inr self \<and>
      blocks self = Some bs \<and> length bs = 2 \<and>
      ResNetDown_forward
        (\<lambda>l v. case l of Conv k a b ks st dl \<Rightarrow> 2 * v | BatchNorm n \<Rightarrow> v + 1
                  | ReLU b \<Rightarrow> max 0 v) self (5::int) = 353)"
proof -
  have e0: "ResNetDown_init (\<lambda>n. False) Conv3d [4, 8] 2 1 2 0 ''ResBlock''
      = Inr \<lparr>conv_in = [Conv Conv3d 4 4 2 (Some 2) (Some 1), BatchNorm 4, ReLU True],
              blocks = None\<rparr>"
    by code_simp
  have e2: "ResNetDown_init (\<lambda>n. False) Conv3d [4, 8] 2 1 2 2 ''ResBlock''
      = Inr \<lparr>conv_in = [Conv Conv3d 4 4 2 (Some 2) (Some 1), BatchNorm 4, ReLU True],
              blocks = Some
                [ResBlock
                   [Conv Conv3d 4 8 3 (Some 1) None, BatchNorm 8, ReLU True,
                    Conv Conv3d 8 8 3 (Some 1) None, BatchNorm 8, ReLU True]
                   (Some [Conv Conv3d 4 8 1 (Some 1) None, BatchNorm 8]),
                 ResBlock
                   [Conv Conv3d 8 8 3 (Some 1) None, BatchNorm 8, ReLU True,
                    Conv Conv3d 8 8 3 (Some 1) None, BatchNorm 8, ReLU True]
                   None]\<rparr>"
    by code_simp
  show ?thesis
    using ResNetDown_forward_blocks [OF e0,
            of "\<lambda>l v. case l of Conv k a b ks st dl \<Rightarrow> 2 * v | BatchNorm n \<Rightarrow> v + 1
                      | ReLU b \<Rightarrow> max 0 v" "5::int"]
          ResNetDown_forward_blocks [OF e2,
            of "\<lambda>l v. case l of Conv k a b ks st dl \<Rightarrow> 2 * v | BatchNorm n \<Rightarrow> v + 1
                      | ReLU b \<Rightarrow> max 0 v" "5::int"]
    by (simp add: e0 e2 ResNetDown_forward_def Seq_forward_def ResBlock_forward_def Let_def)
qed

section \<open>Channel consistency of ResNetDown\<close>

text \<open>
  A block built by either class for \<open>i\<close> input and \<open>out\<close> output channels takes \<open>i\<close>
  channels to \<open>out\<close>: both of its branches do. A stack whose first member takes \<open>c\<close>
  to \<open>d\<close> and whose other members take \<open>d\<close> to \<open>d\<close> takes \<open>c\<close> to \<open>d\<close>.
\<close>

lemma call_block_channels:
  "call_block blk i out C = Inr b \<Longrightarrow> module_channels b i = Some out"
proof (cases blk)
  case ResBlock_class
  assume "call_block blk i out C = Inr b"
  with ResBlock_class have "b = ResBlock_init i out C" by simp
  then show ?thesis by (simp add: ResBlock_init_eq module_channels_def)
next
  case BottleneckBlock_class
  assume "call_block blk i out C = Inr b"
  with BottleneckBlock_class have "BottleneckBlock_init i out C 4 = Inr b" by simp
  then have "b = BottleneckBlock
       [Conv Conv3d i (out div 4) 1 (Some 1) None, BatchNorm (out div 4), ReLU True,
        Conv C (out div 4) (out div 4) 3 (Some 1) None, BatchNorm (out div 4), ReLU True,
        Conv Conv3d (out div 4) out 1 None None, BatchNorm out, ReLU True]
       (if i \<noteq> out then Some [Conv C i out 1 (Some 1) None, BatchNorm out] else None)"
    by (simp add: BottleneckBlock_init_eq)
  then show ?thesis by (simp add: module_channels_def)
next
  case (Other_attr name)
  assume "call_block blk i out C = Inr b"
  with Other_attr show ?thesis by simp
qed

lemma Seq_channels_chain:
  "new \<noteq> [] \<Longrightarrow> \<forall>j<length new. ch (new ! j) (if j = 0 then c else d) = Some d \<Longrightarrow>
   Seq_channels ch new c = Some d"
proof (induction new arbitrary: c)
  case Nil
  then show ?case by simp
next
  case (Cons m ms)
  from Cons.prems(2) have m: "ch m c = Some d" by force
  show ?case
  proof (cases "ms = []")
    case True
    then show ?thesis using m by simp
  next
    case False
    have "\<forall>j<length ms. ch (ms ! j) (if j = 0 then d else d) = Some d"
    proof (intro allI impI)
      fix j assume "j < length ms"
      then have "ch ((m # ms) ! Suc j) (if Suc j = 0 then c else d) = Some d"
        using Cons.prems(2) by (metis Suc_less_eq length_Cons)
      then show "ch (ms ! j) (if j = 0 then d else d) = Some d" by simp
    qed
    from Cons.IH [OF False this] show ?thesis using m by simp
  qed
qed

text \<open>
  Claim C9. On a \<^verbatim>\<open>ResNetDown\<close> the constructor has returned, the channel counts fit
  from stage to stage. The first convolution takes \<^verbatim>\<open>down_conv_nn[0]\<close> channels to
  \<^verbatim>\<open>down_conv_nn[0]\<close> when \<open>stride > 1\<close> and to \<^verbatim>\<open>down_conv_nn[1]\<close> when \<open>stride \<le> 1\<close>, and
  so does the whole of \<^verbatim>\<open>conv_in\<close>. For \<open>N > 0\<close> the first block takes that count to
  \<^verbatim>\<open>down_conv_nn[1]\<close>, every later block takes \<^verbatim>\<open>down_conv_nn[1]\<close> to
  \<^verbatim>\<open>down_conv_nn[1]\<close>, and the module as a whole takes \<^verbatim>\<open>down_conv_nn[0]\<close> channels to
  \<^verbatim>\<open>down_conv_nn[1]\<close> with every layer fed the count it was built for.
\<close>

theorem ResNetDown_channels_consistent:
  assumes "ResNetDown_init interp CONVOLUTION down_conv_nn kernel_size dilation stride N name
             = Inr self"
  shows "(\<exists>rest. conv_in self =
            Conv CONVOLUTION (down_conv_nn ! 0)
              (if stride > 1 then down_conv_nn ! 0 else down_conv_nn ! 1)
              kernel_size (Some stride) (Some dilation) # rest) \<and>
         Seq_channels layer_channels (conv_in self) (down_conv_nn ! 0) =
           Some (if stride > 1 then down_conv_nn ! 0 else down_conv_nn ! 1) \<and>
         (N \<le> 0 \<longrightarrow>
            ResNetDown_channels self (down_conv_nn ! 0) =
              Some (if stride > 1 then down_conv_nn ! 0 else down_conv_nn ! 1)) \<and>
         (0 < N \<longrightarrow>
            (\<exists>bs. blocks self = Some bs \<and> length bs = nat N \<and>
               module_channels (bs ! 0)
                 (if stride > 1 then down_conv_nn ! 0 else down_conv_nn ! 1) =
                 Some (down_conv_nn ! 1) \<and>
               (\<forall>j. 0 < j \<and> j < nat N \<longrightarrow>
                  module_channels (bs ! j) (down_conv_nn ! 1) = Some (down_conv_nn ! 1)) \<and>
               ResNetDown_channels self (down_conv_nn ! 0) = Some (down_conv_nn ! 1)))"
proof -
  define c1 where "c1 = (if stride > 1 then down_conv_nn ! 0 else down_conv_nn ! 1)"
  define d where "d = down_conv_nn ! 1"
  from ResNetDown_init_Inr [OF assms] obtain blk where
    ci: "conv_in self =
           [Conv CONVOLUTION (down_conv_nn ! 0) c1 kernel_size (Some stride) (Some dilation),
            BatchNorm c1, ReLU True]" and
    bl: "if N > 0
         then \<exists>bs. make_blocks blk CONVOLUTION down_conv_nn (nat N) c1 [] = Inr bs
                    \<and> blocks self = Some bs
         else blocks self = None"
    unfolding c1_def by blast
  have first: "Seq_channels layer_channels (conv_in self) (down_conv_nn ! 0) = Some c1"
    by (simp add: ci)
  have none: "ResNetDown_channels self (down_conv_nn ! 0) = Some c1" if "N \<le> 0"
    using that bl first by (simp add: ResNetDown_channels_def)
  have some: "\<exists>bs. blocks self = Some bs \<and> length bs = nat N \<and>
               module_channels (bs ! 0) c1 = Some d \<and>
               (\<forall>j. 0 < j \<and> j < nat N \<longrightarrow> module_channels (bs ! j) d = Some d) \<and>
               ResNetDown_channels self (down_conv_nn ! 0) = Some d" if "0 < N"
  proof -
    from that bl obtain bs where
      mk: "make_blocks blk CONVOLUTION down_conv_nn (nat N) c1 [] = Inr bs" and
      bs: "blocks self = Some bs"
      by auto
    from make_blocks_Inr [OF mk] have
      len: "length bs = nat N" and
      built: "\<forall>j<nat N. call_block blk (if j = 0 then c1 else d) d CONVOLUTION = Inr (bs ! j)"
      unfolding d_def by auto
    have typed: "\<forall>j<length bs. module_channels (bs ! j) (if j = 0 then c1 else d) = Some d"
    proof (intro allI impI)
      fix j assume "j < length bs"
      then have "call_block blk (if j = 0 then c1 else d) d CONVOLUTION = Inr (bs ! j)"
        using built len by simp
      then show "module_channels (bs ! j) (if j = 0 then c1 else d) = Some d"
        by (rule call_block_channels)
    qed
    have ne: "bs \<noteq> []" using len that by auto
    have chain: "Seq_channels module_channels bs c1 = Some d"
      using Seq_channels_chain [OF ne typed] .
    have whole: "ResNetDown_channels self (down_conv_nn ! 0) = Some d"
      using first bs ne chain by (simp add: ResNetDown_channels_def)
    have b0: "module_channels (bs ! 0) c1 = Some d"
      using typed ne by force
    have bj: "\<forall>j. 0 < j \<and> j < nat N \<longrightarrow> module_channels (bs ! j) d = Some d"
      using typed len by force
    from bs len b0 bj whole show ?thesis by blast
  qed
  show ?thesis
    using ci first none some unfolding c1_def d_def by blast
qed


theorem ResNetDown_channels_consistent_witness:
  "(\<exists>self bs. ResNetDown_init (\<lambda>n. False) Conv3d [4, 8] 2 1 2 3 ''BottleneckBlock'' = Inr self \<and>
      Seq_channels layer_channels (conv_in self) 4 = Some 4 \<and>
      blocks self = Some bs \<and> length bs = 3 \<and>
      module_channels (bs ! 0) 4 = Some 8 \<and>
      module_channels (bs ! 1) 8 = Some 8 \<and>
      module_channels (bs ! 2) 8 = Some 8 \<and>
      ResNetDown_channels self 4 = Some 8) \<and>
   (\<exists>self. ResNetDown_init (\<lambda>n. False) Conv3d_transpose [4, 8] 2 1 1 0 ''ResBlock'' = Inr self \<and>
      Seq_channels layer_channels (conv_in self) 4 = Some 8 \<and>
      ResNetDown_channels self 4 = Some 8)"
proof -
  obtain s3 where
    e3: "ResNetDown_init (\<lambda>n. False) Conv3d [4, 8] 2 1 2 3 ''BottleneckBlock'' = Inr s3"
    using ResNetDown_init_returns [of "''BottleneckBlock''" "[4, 8]" "\<lambda>n. False" Conv3d 2 1 2 3]
    by auto
  obtain s0 where
    e0: "ResNetDown_init (\<lambda>n. False) Conv3d_transpose [4, 8] 2 1 1 0 ''ResBlock'' = Inr s0"
    using ResNetDown_init_returns [of "''ResBlock''" "[4, 8]" "\<lambda>n. False" Conv3d_transpose 2 1 1 0]
    by auto
  have a: "\<exists>bs. Seq_channels layer_channels (conv_in s3) 4 = Some 4 \<and>
      blocks s3 = Some bs \<and> length bs = 3 \<and>
      module_channels (bs ! 0) 4 = Some 8 \<and>
      module_channels (bs ! 1) 8 = Some 8 \<and>
      module_channels (bs ! 2) 8 = Some 8 \<and>
      ResNetDown_channels s3 4 = Some 8"
    using ResNetDown_channels_consistent [OF e3] by auto
  have b: "Seq_channels layer_channels (conv_in s0) 4 = Some 8 \<and>
      ResNetDown_channels s0 4 = Some 8"
    using ResNetDown_channels_consistent [OF e0] by simp
  show ?thesis using e3 e0 a b by blast
qed

end
